theory Spec2Isabelle
  imports Complex_Main "HOL-Library.Char_ord" "HOL-Library.List_Lexorder"
    "HOL-Library.Multiset"
begin

section \<open>Linear regression, evaluation metrics and one-hot encoding (Lab\_2\_4\_LR2.py)\<close>

text \<open>
  The development embeds \<^verbatim>\<open>src/Lab_2_4_LR2.py\<close>: the class \<^verbatim>\<open>LinearRegressor\<close>
  (\<^verbatim>\<open>fit\<close>, \<^verbatim>\<open>fit_multiple\<close>, \<^verbatim>\<open>fit_gradient_descent\<close>, \<^verbatim>\<open>predict\<close>) and the functions
  \<^verbatim>\<open>evaluate_regression\<close> and \<^verbatim>\<open>one_hot_encode\<close>.

  Conventions of the embedding:
  \<^item> a numpy \<^verbatim>\<open>float64\<close> is a \<^typ>\<open>real\<close>: arithmetic is exact, rounding, overflow and
    NaN propagation of the machine numbers are not modelled (the one place where the
    source divides numpy scalars by a possibly zero scalar, the R2 score, has its IEEE
    outcome written out);
  \<^item> a raised exception is a value of \<open>py_error\<close>; a method that mutates \<^verbatim>\<open>self\<close>
    returns the regressor as it is when the method returns or raises;
  \<^item> a 1-D array is a list, a 2-D array carries its column count beside its rows, so that
    the shape \<open>(0, c)\<close> exists; every row of a 2-D array has that many cells (\<open>wf2\<close>);
  \<^item> \<^verbatim>\<open>np.linalg.inv\<close> and the random generator are not code of the repository: the
    first is a parameter \<open>linalg_inv\<close>, the second a parameter \<open>rnd\<close>, the sequence of
    uniform draws from [0, 1) that \<^verbatim>\<open>np.random.rand\<close> hands out.
\<close>

subsection \<open>Exceptions and arrays\<close>

datatype py_error =
    ValueError string
  | IndexError
  | TypeError
  | ZeroDivisionError
  | LinAlgError

datatype 'a array2 = Array2 (ncols: nat) (rows: "'a list list")

datatype ndarray = Arr1 "real list" | Arr2 "real array2"

definition wf2 :: "'a array2 \<Rightarrow> bool" where
  "wf2 A = list_all (\<lambda>r. length r = ncols A) (rows A)"

definition nrows :: "'a array2 \<Rightarrow> nat" where
  "nrows A = length (rows A)"

text \<open>\<^verbatim>\<open>A[:, j]\<close> for an index already normalised.\<close>

definition column :: "'a array2 \<Rightarrow> nat \<Rightarrow> 'a list" where
  "column A j = map (\<lambda>r. r ! j) (rows A)"

text \<open>Elementwise arithmetic of two 1-D arrays, with numpy's broadcasting of length 1.\<close>

definition np_broadcast :: "(real \<Rightarrow> real \<Rightarrow> real) \<Rightarrow> real list \<Rightarrow> real list \<Rightarrow> py_error + real list" where
  "np_broadcast f xs ys =
     (if length xs = length ys then Inr (map2 f xs ys)
      else if length xs = 1 then Inr (map (f (hd xs)) ys)
      else if length ys = 1 then Inr (map (\<lambda>x. f x (hd ys)) xs)
      else Inl (ValueError ''operands could not be broadcast together''))"

text \<open>The in-place \<^verbatim>\<open>a -= b\<close>: the result keeps the shape of \<open>a\<close>.\<close>

definition np_isub :: "real list \<Rightarrow> real list \<Rightarrow> py_error + real list" where
  "np_isub xs ys =
     (if length xs = length ys then Inr (map2 (-) xs ys)
      else if length ys = 1 then Inr (map (\<lambda>x. x - hd ys) xs)
      else Inl (ValueError ''operands could not be broadcast together''))"

definition dot :: "real list \<Rightarrow> real list \<Rightarrow> real" where
  "dot xs ys = sum_list (map2 (*) xs ys)"

text \<open>\<^verbatim>\<open>np.dot(A, v)\<close> and \<^verbatim>\<open>A @ v\<close> for a 2-D \<open>A\<close> and a 1-D \<open>v\<close>.\<close>

definition np_dot :: "real array2 \<Rightarrow> real list \<Rightarrow> py_error + real list" where
  "np_dot A v =
     (if ncols A = length v then Inr (map (\<lambda>r. dot r v) (rows A))
      else Inl (ValueError ''shapes not aligned''))"

definition np_transpose :: "'a array2 \<Rightarrow> 'a array2" where
  "np_transpose A = Array2 (nrows A) (map (column A) [0..<ncols A])"

text \<open>\<^verbatim>\<open>A @ B\<close> for two 2-D arrays.\<close>

definition np_matmul :: "real array2 \<Rightarrow> real array2 \<Rightarrow> py_error + real array2" where
  "np_matmul A B =
     (if ncols A = nrows B
      then Inr (Array2 (ncols B) (map (\<lambda>r. map (\<lambda>j. dot r (column B j)) [0..<ncols B]) (rows A)))
      else Inl (ValueError ''shapes not aligned''))"

text \<open>\<^verbatim>\<open>x.reshape(-1, 1)\<close>, \<^verbatim>\<open>np.insert(X, 0, 1, axis=1)\<close> and \<^verbatim>\<open>X[:, 1:]\<close>.\<close>

definition reshape_column :: "real list \<Rightarrow> real array2" where
  "reshape_column xs = Array2 1 (map (\<lambda>x. [x]) xs)"

definition insert_ones :: "real array2 \<Rightarrow> real array2" where
  "insert_ones A = Array2 (Suc (ncols A)) (map (\<lambda>r. 1 # r) (rows A))"

definition drop_first_column :: "'a array2 \<Rightarrow> 'a array2" where
  "drop_first_column A = Array2 (ncols A - 1) (map tl (rows A))"

subsection \<open>The regressor\<close>

record LinearRegressor =
  coefficients :: "real list option"
  intercept :: "real option"

text \<open>\<^verbatim>\<open>__init__\<close>\<close>

definition init :: LinearRegressor where
  "init = \<lparr>coefficients = None, intercept = None\<rparr>"

definition predict :: "LinearRegressor \<Rightarrow> ndarray \<Rightarrow> py_error + real list" where
  "predict self X =
     (case coefficients self of
        None \<Rightarrow> Inl (ValueError ''Model is not yet fitted'')
      | Some w \<Rightarrow>
         (case intercept self of
            None \<Rightarrow> Inl (ValueError ''Model is not yet fitted'')
          | Some b \<Rightarrow>
             (case X of
                Arr1 xs \<Rightarrow>
                  (case np_broadcast (*) w xs of
                     Inl e \<Rightarrow> Inl e
                   | Inr p \<Rightarrow> Inr (map (\<lambda>v. b + v) p))
              | Arr2 A \<Rightarrow>
                  (case np_dot A w of
                     Inl e \<Rightarrow> Inl e
                   | Inr p \<Rightarrow> Inr (map (\<lambda>v. b + v) p)))))"

text \<open>
  \<^verbatim>\<open>fit_multiple\<close>: \<^verbatim>\<open>beta = np.linalg.inv(X.T @ X) @ X.T @ y\<close>, the products taken from
  the left as Python does. Nothing is assigned when a step raises.
\<close>

definition fit_multiple ::
  "(real array2 \<Rightarrow> py_error + real array2) \<Rightarrow> LinearRegressor \<Rightarrow> real array2 \<Rightarrow> real list
     \<Rightarrow> py_error option \<times> LinearRegressor" where
  "fit_multiple linalg_inv self X y =
     (let X_transpose = np_transpose X in
      case np_matmul X_transpose X of
        Inl e \<Rightarrow> (Some e, self)
      | Inr G \<Rightarrow>
         (case linalg_inv G of
            Inl e \<Rightarrow> (Some e, self)
          | Inr Gi \<Rightarrow>
             (case np_matmul Gi X_transpose of
                Inl e \<Rightarrow> (Some e, self)
              | Inr P \<Rightarrow>
                 (case np_dot P y of
                    Inl e \<Rightarrow> (Some e, self)
                  | Inr beta \<Rightarrow>
                     (case beta of
                        [] \<Rightarrow> (Some IndexError, self)
                      | b0 # bs \<Rightarrow>
                          (None, self\<lparr>intercept := Some b0, coefficients := Some bs\<rparr>))))))"

text \<open>
  One pass of the loop body of \<^verbatim>\<open>fit_gradient_descent\<close>, on the array with its bias column.
  The result is the exception raised (if any), the regressor and what the pass printed:
  the pair of the epoch and the mean squared error, every 100th epoch.
\<close>

definition gd_epoch ::
  "real array2 \<Rightarrow> real list \<Rightarrow> real \<Rightarrow> nat \<Rightarrow> LinearRegressor
     \<Rightarrow> py_error option \<times> LinearRegressor \<times> (nat \<times> real) list" where
  "gd_epoch X y learning_rate epoch self =
     (let n = length y; F = drop_first_column X in
      case predict self (Arr2 F) of
        Inl e \<Rightarrow> (Some e, self, [])
      | Inr predictions \<Rightarrow>
         (case np_broadcast (-) predictions y of
            Inl e \<Rightarrow> (Some e, self, [])
          | Inr error \<Rightarrow>
             if n = 0 then (Some ZeroDivisionError, self, [])
             else
               let gradient_intercept = (2 / real n) * sum_list error in
               (case np_dot (np_transpose F) error of
                  Inl e \<Rightarrow> (Some e, self, [])
                | Inr d \<Rightarrow>
                   let gradient_coefficients = map (\<lambda>v. (2 / real n) * v) d;
                       self1 = self\<lparr>intercept := Some (the (intercept self) - learning_rate * gradient_intercept)\<rparr>
                   in (case np_isub (the (coefficients self)) (map (\<lambda>v. learning_rate * v) gradient_coefficients) of
                         Inl e \<Rightarrow> (Some e, self1, [])
                       | Inr w \<Rightarrow>
                           (None, self1\<lparr>coefficients := Some w\<rparr>,
                            if epoch mod 100 = 0
                            then [(epoch, sum_list (map (\<lambda>v. v ^ 2) error) / real (length error))]
                            else [])))))"

text \<open>\<^verbatim>\<open>for epoch in range(iterations)\<close>: the passes in order, stopping at the first exception.\<close>

fun gd_loop ::
  "real array2 \<Rightarrow> real list \<Rightarrow> real \<Rightarrow> nat list \<Rightarrow> LinearRegressor
     \<Rightarrow> py_error option \<times> LinearRegressor \<times> (nat \<times> real) list" where
  "gd_loop X y learning_rate [] self = (None, self, [])"
| "gd_loop X y learning_rate (epoch # epochs) self =
     (case gd_epoch X y learning_rate epoch self of
        (Some e, self1, out) \<Rightarrow> (Some e, self1, out)
      | (None, self1, out) \<Rightarrow>
          (case gd_loop X y learning_rate epochs self1 of
             (r, self2, out2) \<Rightarrow> (r, self2, out @ out2)))"

text \<open>
  \<^verbatim>\<open>fit_gradient_descent\<close>. \<^verbatim>\<open>np.random.rand(X.shape[1] - 1)\<close> takes the first draws of
  \<open>rnd\<close> and refuses a negative length; \<^verbatim>\<open>np.random.rand()\<close> takes the next draw.
\<close>

definition fit_gradient_descent ::
  "(nat \<Rightarrow> real) \<Rightarrow> LinearRegressor \<Rightarrow> real array2 \<Rightarrow> real list \<Rightarrow> real \<Rightarrow> int
     \<Rightarrow> py_error option \<times> LinearRegressor \<times> (nat \<times> real) list" where
  "fit_gradient_descent rnd self X y learning_rate iterations =
     (if ncols X = 0 then (Some (ValueError ''negative dimensions are not allowed''), self, [])
      else
        let d = ncols X - 1;
            self1 = self\<lparr>coefficients := Some (map (\<lambda>j. rnd j * 0.01) [0..<d])\<rparr>;
            self2 = self1\<lparr>intercept := Some (rnd d * 0.01)\<rparr>
        in gd_loop X y learning_rate [0..<nat iterations] self2)"

definition method_error :: "string \<Rightarrow> py_error" where
  "method_error method =
     ValueError (''Method '' @ method @ '' not available for training linear regression.'')"

definition fit ::
  "(real array2 \<Rightarrow> py_error + real array2) \<Rightarrow> (nat \<Rightarrow> real) \<Rightarrow> LinearRegressor \<Rightarrow> ndarray
     \<Rightarrow> real list \<Rightarrow> string \<Rightarrow> real \<Rightarrow> int
     \<Rightarrow> py_error option \<times> LinearRegressor \<times> (nat \<times> real) list" where
  "fit linalg_inv rnd self X y method learning_rate iterations =
     (if method \<notin> set [''least_squares'', ''gradient_descent'']
      then (Some (method_error method), self, [])
      else
        let X2 = (case X of Arr1 xs \<Rightarrow> reshape_column xs | Arr2 A \<Rightarrow> A);
            X_with_bias = insert_ones X2
        in if method = ''least_squares''
           then (case fit_multiple linalg_inv self X_with_bias y of (r, self1) \<Rightarrow> (r, self1, []))
           else if method = ''gradient_descent''
           then fit_gradient_descent rnd self X_with_bias y learning_rate iterations
           else (None, self, []))"

subsection \<open>The encoder\<close>

text \<open>
  A cell of the table is a number or a string. \<^verbatim>\<open>np.array(X, dtype=object)\<close> keeps the
  Python objects, so \<^verbatim>\<open>np.unique\<close> sorts a column with Python's \<^verbatim>\<open><\<close>: numbers by
  value, strings by code point, and a TypeError for a number against a string.
\<close>

datatype cell = is_Num: Num (num_of: real) | is_Str: Str (str_of: string)

definition np_unique :: "cell list \<Rightarrow> py_error + cell list" where
  "np_unique col =
     (if list_all is_Num col then Inr (map Num (sort (remdups (map num_of col))))
      else if list_all is_Str col then Inr (map Str (sort (remdups (map str_of col))))
      else Inl TypeError)"

text \<open>
  An integer index into an axis of length \<open>n\<close>: numpy counts a negative index from the
  end and raises IndexError outside \<open>[-n, n)\<close>. A slice bound is clamped instead.
\<close>

definition normalize_index :: "int \<Rightarrow> nat \<Rightarrow> py_error + nat" where
  "normalize_index i n =
     (if 0 \<le> i \<and> i < int n then Inr (nat i)
      else if - int n \<le> i \<and> i < 0 then Inr (nat (i + int n))
      else Inl IndexError)"

definition slice_point :: "int \<Rightarrow> nat \<Rightarrow> nat" where
  "slice_point i n = (if i < 0 then nat (max (i + int n) 0) else min (nat i) n)"

text \<open>\<^verbatim>\<open>np.delete(X, j, axis=1)\<close> for an index already normalised.\<close>

definition delete_column :: "'a array2 \<Rightarrow> nat \<Rightarrow> 'a array2" where
  "delete_column X j = Array2 (ncols X - 1) (map (\<lambda>r. take j r @ drop (Suc j) r) (rows X))"

text \<open>\<^verbatim>\<open>[1 if element == value else 0 for value in unique_values]\<close>\<close>

definition one_hots_row :: "cell list \<Rightarrow> cell \<Rightarrow> cell list" where
  "one_hots_row unique_values element =
     map (\<lambda>value. if element = value then Num 1 else Num 0) unique_values"

text \<open>
  The body of the loop of \<^verbatim>\<open>one_hot_encode\<close> for one index. With no row,
  \<^verbatim>\<open>one_hots\<close> is \<^verbatim>\<open>np.array([])\<close>, a 1-D array, and \<^verbatim>\<open>np.hstack\<close> refuses it beside
  the 2-D slices.
\<close>

definition encode_column :: "bool \<Rightarrow> cell array2 \<Rightarrow> int \<Rightarrow> py_error + cell array2" where
  "encode_column drop_first X index =
     (case normalize_index index (ncols X) of
        Inl e \<Rightarrow> Inl e
      | Inr j \<Rightarrow>
         (let categorical_column = column X j in
          case np_unique categorical_column of
            Inl e \<Rightarrow> Inl e
          | Inr u \<Rightarrow>
             (let unique_values = (if drop_first then drop 1 u else u);
                  D = delete_column X j;
                  p = slice_point index (ncols D)
              in if rows X = []
                 then Inl (ValueError ''all the input arrays must have same number of dimensions'')
                 else Inr (Array2 (ncols D + length unique_values)
                        (map2 (\<lambda>element r. take p r @ one_hots_row unique_values element @ drop p r)
                           categorical_column (rows D))))))"

fun encode_loop :: "bool \<Rightarrow> int list \<Rightarrow> cell array2 \<Rightarrow> py_error + cell array2" where
  "encode_loop drop_first [] X = Inr X"
| "encode_loop drop_first (index # indices) X =
     (case encode_column drop_first X index of
        Inl e \<Rightarrow> Inl e
      | Inr X1 \<Rightarrow> encode_loop drop_first indices X1)"

text \<open>\<^verbatim>\<open>for index in sorted(categorical_indices, reverse=True)\<close>\<close>

definition one_hot_encode :: "cell array2 \<Rightarrow> int list \<Rightarrow> bool \<Rightarrow> py_error + cell array2" where
  "one_hot_encode X categorical_indices drop_first =
     encode_loop drop_first (rev (sort categorical_indices)) X"

subsection \<open>The evaluator\<close>





subsection \<open>Notions of the specification\<close>





text \<open>
  One step of gradient descent as the specification writes it, on the pair of the intercept
  and the coefficients: \<open>X\<close> holds the rows of raw features, without the bias column,
  and \<open>n\<close> is the number of targets.
\<close>

definition gd_error :: "real list list \<Rightarrow> real list \<Rightarrow> real \<times> real list \<Rightarrow> nat \<Rightarrow> real" where
  "gd_error X y p i = (fst p + (\<Sum>j<length (snd p). X ! i ! j * snd p ! j)) - y ! i"

definition gd_update :: "real list list \<Rightarrow> real list \<Rightarrow> real \<Rightarrow> real \<times> real list \<Rightarrow> real \<times> real list" where
  "gd_update X y learning_rate p =
     (fst p - learning_rate * ((2 / real (length y)) * (\<Sum>i<length y. gd_error X y p i)),
      map (\<lambda>j. snd p ! j
                 - learning_rate * ((2 / real (length y)) * (\<Sum>i<length y. X ! i ! j * gd_error X y p i)))
        [0..<length (snd p)])"






text \<open>
  Two instances of the parameters, for concrete runs: a generator whose draws are all
  the same number, and an inversion that always reports a singular matrix.
\<close>

definition constant_draws :: "real \<Rightarrow> nat \<Rightarrow> real" where
  "constant_draws v j = v"

definition singular_inv :: "real array2 \<Rightarrow> py_error + real array2" where
  "singular_inv G = Inl LinAlgError"


text \<open>Python's \<^verbatim>\<open><\<close> on cells, where it is defined.\<close>

fun cell_less :: "cell \<Rightarrow> cell \<Rightarrow> bool" where
  "cell_less (Num a) (Num b) = (a < b)"
| "cell_less (Str a) (Str b) = (a < b)"
| "cell_less (Num a) (Str b) = False"
| "cell_less (Str a) (Num b) = False"

text \<open>A column whose values can be sorted: all numbers, or all strings.\<close>

definition homogeneous :: "cell list \<Rightarrow> bool" where
  "homogeneous col = (list_all is_Num col \<or> list_all is_Str col)"

fun cell_value :: "cell \<Rightarrow> real" where
  "cell_value (Num x) = x"
| "cell_value (Str s) = 0"

definition row_sum :: "cell list \<Rightarrow> real" where
  "row_sum cs = sum_list (map cell_value cs)"

text \<open>The indicator values of a column: its sorted unique values, less the first on request.\<close>

definition levels :: "bool \<Rightarrow> cell list \<Rightarrow> cell list" where
  "levels drop_first col =
     (case np_unique col of
        Inl e \<Rightarrow> []
      | Inr u \<Rightarrow> if drop_first then drop 1 u else u)"

text \<open>
  A row of the encoded table as the specification describes it: from left to right, a
  designated column gives way to its indicators and any other column keeps its cell.
\<close>

definition spliced_row :: "(nat \<Rightarrow> cell list) \<Rightarrow> nat list \<Rightarrow> cell list \<Rightarrow> cell list" where
  "spliced_row L designated r =
     concat (map (\<lambda>j. if j \<in> set designated then one_hots_row (L j) (r ! j) else [r ! j])
               [0..<length r])"

text \<open>What one pass of the loop does to a row when it encodes column \<open>j\<close>.\<close>

definition row_step :: "(nat \<Rightarrow> cell list) \<Rightarrow> nat \<Rightarrow> cell list \<Rightarrow> cell list" where
  "row_step L j r = take j r @ one_hots_row (L j) (r ! j) @ drop (Suc j) r"

section \<open>Properties\<close>

lemma regressor_overwrite:
  "(self :: LinearRegressor)\<lparr>coefficients := w, intercept := b\<rparr>
     = \<lparr>coefficients = w, intercept = b\<rparr>"
  by (cases self) simp

lemma sorted_le_last: "sorted ys \<Longrightarrow> x \<in> set ys \<Longrightarrow> x \<le> last ys"
  by (induction ys) (auto split: if_splits)

lemma rev_sort_head:
  fixes xs :: "int list"
  assumes "xs \<noteq> []"
  shows "\<exists>m rest. rev (sort xs) = m # rest \<and> m \<in> set xs \<and> (\<forall>x\<in>set xs. x \<le> m)"
proof -
  have ne: "sort xs \<noteq> []" using assms by (metis length_sort length_0_conv)
  have 1: "rev (sort xs) = last (sort xs) # rev (butlast (sort xs))"
    using ne by (metis append_butlast_last_id rev_eq_Cons_iff rev_swap)
  have 2: "last (sort xs) \<in> set xs" using ne last_in_set [of "sort xs"] by simp
  have 3: "\<forall>x\<in>set xs. x \<le> last (sort xs)"
    using sorted_le_last [of "sort xs"] by simp
  show ?thesis using 1 2 3 by blast
qed

subsection \<open>Lemmas on the encoder\<close>

lemma sorted_wrt_cell_less_Num: "sorted_wrt cell_less (map Num xs) = sorted_wrt (<) xs"
  by (simp add: sorted_wrt_map)

lemma sorted_wrt_cell_less_Str: "sorted_wrt cell_less (map Str xs) = sorted_wrt (<) xs"
  by (simp add: sorted_wrt_map)

lemma np_unique_homogeneous:
  assumes "homogeneous col"
  shows "\<exists>u. np_unique col = Inr u \<and> sorted_wrt cell_less u \<and> distinct u \<and> set u = set col"
proof (cases "list_all is_Num col")
  case True
  let ?u = "map Num (sort (remdups (map num_of col)))"
  have 1: "np_unique col = Inr ?u" using True by (simp add: np_unique_def)
  have 2: "sorted_wrt cell_less ?u"
    unfolding sorted_wrt_cell_less_Num by (simp add: strict_sorted_iff)
  have 3: "distinct ?u" by (simp add: distinct_map inj_on_def)
  have "Num ` num_of ` set col = set col"
    using True by (force simp add: list_all_iff image_iff)
  then have 4: "set ?u = set col" by simp
  show ?thesis using 1 2 3 4 by blast
next
  case False
  then have S: "list_all is_Str col" using assms by (simp add: homogeneous_def)
  let ?u = "map Str (sort (remdups (map str_of col)))"
  have 1: "np_unique col = Inr ?u" using False S by (simp add: np_unique_def)
  have 2: "sorted_wrt cell_less ?u"
    unfolding sorted_wrt_cell_less_Str by (simp add: strict_sorted_iff)
  have 3: "distinct ?u" by (simp add: distinct_map inj_on_def)
  have "Str ` str_of ` set col = set col"
    using S by (force simp add: list_all_iff image_iff)
  then have 4: "set ?u = set col" by simp
  show ?thesis using 1 2 3 4 by blast
qed

lemma map2_same: "map2 f (map g xs) (map h xs) = map (\<lambda>x. f (g x) (h x)) xs"
  by (induction xs) auto

lemma encode_column_valid:
  assumes wf: "wf2 X" and ne: "rows X \<noteq> []" and j: "j < ncols X"
    and h: "homogeneous (column X j)"
  shows "encode_column d X (int j)
           = Inr (Array2 (ncols X - 1 + length (levels d (column X j)))
                    (map (row_step (\<lambda>j. levels d (column X j)) j) (rows X)))"
proof -
  define L where "L = levels d (column X j)"
  obtain u where u: "np_unique (column X j) = Inr u"
    using np_unique_homogeneous [OF h] by blast
  have lv: "(if d then drop 1 u else u) = L" by (simp add: L_def levels_def u)
  have n: "normalize_index (int j) (ncols X) = Inr j" using j by (simp add: normalize_index_def)
  have p: "slice_point (int j) (ncols X - Suc 0) = j" using j by (simp add: slice_point_def)
  have len: "\<And>r. r \<in> set (rows X) \<Longrightarrow> length r = ncols X"
    using wf by (simp add: wf2_def list_all_iff)
  have rows_eq: "map2 (\<lambda>element r. take j r @ one_hots_row L element @ drop j r)
                    (column X j) (rows (delete_column X j))
        = map (\<lambda>r. take j r @ one_hots_row L (r ! j) @ drop (Suc j) r) (rows X)"
    unfolding column_def delete_column_def array2.sel map2_same
    using len j by (intro map_cong) (auto simp add: min_def)
  have "encode_column d X (int j)
          = Inr (Array2 (ncols X - 1 + length L)
                   (map2 (\<lambda>element r. take j r @ one_hots_row L element @ drop j r)
                      (column X j) (rows (delete_column X j))))"
  proof -
    have nc: "ncols (delete_column X j) = ncols X - 1" by (simp add: delete_column_def)
    show ?thesis
      using ne by (simp add: encode_column_def n u Let_def lv nc p)
  qed
  then show ?thesis
    unfolding rows_eq by (simp add: L_def row_step_def)
qed


lemma nth_segment:
  assumes "a \<le> b" and "b \<le> length r"
  shows "map ((!) r) [a..<b] @ drop b r = drop a r"
proof (rule nth_equalityI)
  show "length (map ((!) r) [a..<b] @ drop b r) = length (drop a r)"
    using assms by simp
next
  fix i assume "i < length (map ((!) r) [a..<b] @ drop b r)"
  then have "i < length r - a" using assms by simp
  then show "(map ((!) r) [a..<b] @ drop b r) ! i = drop a r ! i"
    using assms by (auto simp add: nth_append add.commute)
qed

lemma upt_split3:
  assumes "j < b" shows "[0..<b] = [0..<j] @ j # [Suc j..<b]"
proof -
  have "[0..<j + (b - j)] = [0..<j] @ [j..<j + (b - j)]" by (rule upt_add_eq_append) simp
  then show ?thesis using assms by (simp add: upt_conv_Cons)
qed

lemma row_step_nth: "i < j \<Longrightarrow> j \<le> length r \<Longrightarrow> row_step L j r ! i = r ! i"
  by (simp add: row_step_def nth_append)

lemma row_step_length:
  "j < length r \<Longrightarrow> length (row_step L j r) = length r - 1 + length (L j)"
  by (simp add: row_step_def one_hots_row_def)

lemma fold_row_step:
  assumes "sorted_wrt (>) js" and "\<forall>j\<in>set js. j < b" and "b \<le> length r"
  shows "fold (row_step L) js r
           = concat (map (\<lambda>j. if j \<in> set js then one_hots_row (L j) (r ! j) else [r ! j]) [0..<b])
             @ drop b r"
  using assms
proof (induction js arbitrary: r b)
  case Nil
  then show ?case using nth_segment [of 0 b r] by simp
next
  case (Cons j js)
  let ?r1 = "row_step L j r"
  have jb: "j < b" using Cons.prems by simp
  have jl: "j < length r" using jb Cons.prems by simp
  have lt: "\<forall>i\<in>set js. i < j" using Cons.prems by auto
  have "j \<le> length ?r1" using jl by (simp add: row_step_length)
  then have IH: "fold (row_step L) js ?r1
      = concat (map (\<lambda>i. if i \<in> set js then one_hots_row (L i) (?r1 ! i) else [?r1 ! i]) [0..<j])
        @ drop j ?r1"
    using Cons.IH [of j ?r1] Cons.prems lt by simp
  have low: "map (\<lambda>i. if i \<in> set js then one_hots_row (L i) (?r1 ! i) else [?r1 ! i]) [0..<j]
      = map (\<lambda>i. if i \<in> set (j # js) then one_hots_row (L i) (r ! i) else [r ! i]) [0..<j]"
    using jl by (intro map_cong) (auto simp add: row_step_nth)
  have mid: "drop j ?r1 = one_hots_row (L j) (r ! j) @ drop (Suc j) r"
    using jl by (simp add: row_step_def)
  have high: "map (\<lambda>i. if i \<in> set (j # js) then one_hots_row (L i) (r ! i) else [r ! i]) [Suc j..<b]
      = map (\<lambda>i. [r ! i]) [Suc j..<b]"
    using lt by (intro map_cong) auto
  have split: "[0..<b] = [0..<j] @ j # [Suc j..<b]"
    using jb by (rule upt_split3)
  have seg: "map ((!) r) [Suc j..<b] @ drop b r = drop (Suc j) r"
    using jb Cons.prems by (intro nth_segment) auto
  show ?case
    unfolding split map_append list.map concat_append concat.simps high concat_map_singleton
    using IH low mid seg by simp
qed

lemma encode_loop_valid:
  assumes "sorted_wrt (>) js" and "\<forall>j\<in>set js. j < ncols T" and "wf2 T" and "rows T \<noteq> []"
    and "\<forall>j\<in>set js. homogeneous (column T j) \<and> levels d (column T j) = L j"
  shows "\<exists>c. encode_loop d (map int js) T = Inr (Array2 c (map (fold (row_step L) js) (rows T)))
             \<and> wf2 (Array2 c (map (fold (row_step L) js) (rows T)))"
  using assms
proof (induction js arbitrary: T)
  case Nil
  then show ?case by (cases T) (simp add: wf2_def)
next
  case (Cons j js)
  let ?T1 = "Array2 (ncols T - 1 + length (L j)) (map (row_step L j) (rows T))"
  have j: "j < ncols T" using Cons.prems by simp
  have len: "\<And>r. r \<in> set (rows T) \<Longrightarrow> length r = ncols T"
    using Cons.prems by (simp add: wf2_def list_all_iff)
  have "row_step (\<lambda>i. levels d (column T i)) j = row_step L j"
    using Cons.prems by (simp add: row_step_def fun_eq_iff)
  then have step: "encode_column d T (int j) = Inr ?T1"
    using encode_column_valid [of T j d] Cons.prems by simp
  have wf1: "wf2 ?T1"
    using len j by (simp add: wf2_def list_all_iff row_step_length)
  have lt: "\<forall>i\<in>set js. i < j" using Cons.prems by auto
  have cols: "\<And>i. i < j \<Longrightarrow> column ?T1 i = column T i"
    using len j by (simp add: column_def row_step_nth)
  have "\<exists>c. encode_loop d (map int js) ?T1 = Inr (Array2 c (map (fold (row_step L) js) (rows ?T1)))
             \<and> wf2 (Array2 c (map (fold (row_step L) js) (rows ?T1)))"
  proof (rule Cons.IH)
    show "sorted_wrt (>) js" using Cons.prems by simp
    show "\<forall>i\<in>set js. i < ncols ?T1" using lt j by auto
    show "wf2 ?T1" by (rule wf1)
    show "rows ?T1 \<noteq> []" using Cons.prems by simp
    show "\<forall>i\<in>set js. homogeneous (column ?T1 i) \<and> levels d (column ?T1 i) = L i"
      using Cons.prems lt cols by simp
  qed
  then show ?case by (simp add: step comp_def)
qed


lemma row_sum_absent: "x \<notin> set u \<Longrightarrow> row_sum (one_hots_row u x) = 0"
  by (induction u) (auto simp add: row_sum_def one_hots_row_def)

lemma row_sum_present:
  "distinct u \<Longrightarrow> x \<in> set u \<Longrightarrow> row_sum (one_hots_row u x) = 1"
proof (induction u)
  case Nil
  then show ?case by simp
next
  case (Cons v u)
  show ?case
  proof (cases "x = v")
    case True
    then have "x \<notin> set u" using Cons.prems by simp
    then have "row_sum (one_hots_row u x) = 0" by (rule row_sum_absent)
    then show ?thesis using True by (simp add: row_sum_def one_hots_row_def)
  next
    case False
    then have "row_sum (one_hots_row u x) = 1" using Cons by simp
    then show ?thesis using False by (simp add: row_sum_def one_hots_row_def)
  qed
qed

lemma levels_homogeneous:
  assumes "homogeneous col"
  shows "sorted_wrt cell_less (levels False col) \<and> distinct (levels False col)
         \<and> set (levels False col) = set col \<and> levels True col = tl (levels False col)"
proof -
  obtain u where "np_unique col = Inr u" "sorted_wrt cell_less u" "distinct u" "set u = set col"
    using np_unique_homogeneous [OF assms] by blast
  then show ?thesis by (simp add: levels_def drop_Suc)
qed

lemma one_hot_encode_single:
  "one_hot_encode X [i] d = encode_column d X i"
  by (simp add: one_hot_encode_def split: sum.splits)

lemma descending_indices:
  fixes idxs :: "int list"
  assumes "distinct idxs" and "\<forall>i\<in>set idxs. 0 \<le> i"
  shows "map int (map nat (rev (sort idxs))) = rev (sort idxs)"
    and "sorted_wrt (>) (map nat (rev (sort idxs)))"
    and "set (map nat (rev (sort idxs))) = set (map nat idxs)"
proof -
  have nn: "\<forall>i\<in>set (rev (sort idxs)). 0 \<le> i" using assms by simp
  then have "map (\<lambda>i. int (nat i)) (rev (sort idxs)) = rev (sort idxs)"
    by (intro map_idI) auto
  then show "map int (map nat (rev (sort idxs))) = rev (sort idxs)"
    by (simp add: comp_def)
  have "sorted_wrt (<) (sort idxs)" using assms by (simp add: strict_sorted_iff)
  then have "sorted_wrt (>) (rev (sort idxs))" by (simp add: sorted_wrt_rev)
  then have "sorted_wrt (\<lambda>a b. nat a > nat b) (rev (sort idxs))"
    using nn by (elim sorted_wrt_mono_rel [rotated]) auto
  then show "sorted_wrt (>) (map nat (rev (sort idxs)))" by (simp add: sorted_wrt_map)
  show "set (map nat (rev (sort idxs))) = set (map nat idxs)" by simp
qed

subsection \<open>Lemmas on sums\<close>

lemma sum_list_index: "sum_list (map f xs) = (\<Sum>i<length xs. f (xs ! i))"
proof -
  have "sum_list (map f xs) = (\<Sum>i = 0..<length (map f xs). map f xs ! i)"
    by (rule sum_list_sum_nth)
  then show ?thesis by (simp add: atLeast0LessThan)
qed

lemma sum_list_zip_index:
  assumes "length xs = length ys"
  shows "sum_list (map h (zip xs ys)) = (\<Sum>i<length xs. h (xs ! i, ys ! i))"
proof -
  have "sum_list (map h (zip xs ys)) = (\<Sum>i<length (zip xs ys). h (zip xs ys ! i))"
    by (rule sum_list_index)
  then show ?thesis using assms by simp
qed


subsection \<open>Lemmas on gradient descent\<close>

lemma drop_first_insert_ones: "drop_first_column (insert_ones A) = A"
  by (cases A) (simp add: drop_first_column_def insert_ones_def comp_def)

lemma dot_index: "length xs = length ys \<Longrightarrow> dot xs ys = (\<Sum>j<length xs. xs ! j * ys ! j)"
  using sum_list_zip_index [of xs ys "\<lambda>(a, b). a * b"] by (simp add: dot_def)

lemma map2_upt:
  assumes "length w = d"
  shows "map2 (-) w (map f [0..<d]) = map (\<lambda>j. w ! j - f j) [0..<d]"
  using assms by (intro nth_equalityI) auto

lemma gd_epoch_step:
  assumes wf: "wf2 A" and n: "nrows A = length y" and pos: "0 < length y"
    and w: "length w = ncols A"
  shows "\<exists>out. gd_epoch (insert_ones A) y lr epoch \<lparr>coefficients = Some w, intercept = Some b\<rparr>
           = (None, \<lparr>coefficients = Some (snd (gd_update (rows A) y lr (b, w))),
                     intercept = Some (fst (gd_update (rows A) y lr (b, w)))\<rparr>, out)"
proof -
  let ?n = "length y"
  let ?e = "map2 (-) (map (\<lambda>v. b + v) (map (\<lambda>r. dot r w) (rows A))) y"
  have len: "\<And>r. r \<in> set (rows A) \<Longrightarrow> length r = length w"
    using wf w by (simp add: wf2_def list_all_iff)
  have lr: "length (rows A) = ?n" using n by (simp add: nrows_def)
  have p: "predict \<lparr>coefficients = Some w, intercept = Some b\<rparr> (Arr2 A)
      = Inr (map (\<lambda>v. b + v) (map (\<lambda>r. dot r w) (rows A)))"
    using w by (simp add: predict_def np_dot_def)
  have br: "np_broadcast (-) (map (\<lambda>v. b + v) (map (\<lambda>r. dot r w) (rows A))) y = Inr ?e"
    using lr by (simp add: np_broadcast_def)
  have le: "length ?e = ?n" using lr by simp
  have ei: "\<And>i. i < ?n \<Longrightarrow> ?e ! i = gd_error (rows A) y (b, w) i"
  proof -
    fix i assume i: "i < ?n"
    then have "rows A ! i \<in> set (rows A)" using lr by simp
    then have "dot (rows A ! i) w = (\<Sum>j<length w. rows A ! i ! j * w ! j)"
      using dot_index [of "rows A ! i" w] len by simp
    then show "?e ! i = gd_error (rows A) y (b, w) i"
      using i lr by (simp add: gd_error_def)
  qed
  have se: "sum_list ?e = (\<Sum>i<?n. gd_error (rows A) y (b, w) i)"
    using sum_list_index [of "\<lambda>v. v" ?e] ei le by simp
  have tr: "np_dot (np_transpose A) ?e = Inr (map (\<lambda>j. dot (column A j) ?e) [0..<ncols A])"
    using le n by (simp add: np_dot_def np_transpose_def)
  have dc: "\<And>j. dot (column A j) ?e = (\<Sum>i<?n. rows A ! i ! j * gd_error (rows A) y (b, w) i)"
  proof -
    fix j
    have "length (column A j) = length ?e" using le lr by (simp add: column_def)
    then have "dot (column A j) ?e = (\<Sum>i<length (column A j). column A j ! i * ?e ! i)"
      by (rule dot_index)
    also have "\<dots> = (\<Sum>i<?n. rows A ! i ! j * gd_error (rows A) y (b, w) i)"
      using lr ei by (simp add: column_def)
    finally show "dot (column A j) ?e = (\<Sum>i<?n. rows A ! i ! j * gd_error (rows A) y (b, w) i)" .
  qed
  let ?g = "\<lambda>j. lr * (2 / real ?n * (\<Sum>i<?n. rows A ! i ! j * gd_error (rows A) y (b, w) i))"
  have upd: "np_isub w (map (\<lambda>v. lr * v) (map (\<lambda>v. 2 / real ?n * v)
                 (map (\<lambda>j. dot (column A j) ?e) [0..<ncols A])))
      = Inr (map (\<lambda>j. w ! j - ?g j) [0..<ncols A])"
    unfolding dc using w map2_upt [of w "ncols A" ?g] by (simp add: np_isub_def comp_def)
  have "gd_epoch (insert_ones A) y lr epoch \<lparr>coefficients = Some w, intercept = Some b\<rparr>
      = (None,
         \<lparr>coefficients = Some w,
            intercept = Some (b - lr * (2 / real ?n * (\<Sum>i<?n. gd_error (rows A) y (b, w) i)))\<rparr>
         \<lparr>coefficients := Some (map (\<lambda>j. w ! j - ?g j) [0..<ncols A])\<rparr>,
         if epoch mod 100 = 0 then [(epoch, sum_list (map (\<lambda>v. v ^ 2) ?e) / real (length ?e))] else [])"
    using pos
    by (simp only: gd_epoch_def Let_def drop_first_insert_ones p sum.case br tr se upd
        LinearRegressor.select_convs LinearRegressor.update_convs option.sel
        refl) simp
  then show ?thesis
    using w by (simp add: gd_update_def)
qed


lemma gd_update_length: "length (snd (gd_update X y lr p)) = length (snd p)"
  by (simp add: gd_update_def)

lemma gd_loop_steps:
  assumes "wf2 A" and "nrows A = length y" and "0 < length y" and "length w = ncols A"
  shows "\<exists>out. gd_loop (insert_ones A) y lr epochs \<lparr>coefficients = Some w, intercept = Some b\<rparr>
           = (None, \<lparr>coefficients = Some (snd ((gd_update (rows A) y lr ^^ length epochs) (b, w))),
                     intercept = Some (fst ((gd_update (rows A) y lr ^^ length epochs) (b, w)))\<rparr>, out)"
  using assms(4)
proof (induction epochs arbitrary: b w)
  case Nil
  then show ?case by simp
next
  case (Cons epoch epochs)
  let ?p = "gd_update (rows A) y lr (b, w)"
  obtain out1 where 1: "gd_epoch (insert_ones A) y lr epoch \<lparr>coefficients = Some w, intercept = Some b\<rparr>
      = (None, \<lparr>coefficients = Some (snd ?p), intercept = Some (fst ?p)\<rparr>, out1)"
    using gd_epoch_step [OF assms(1,2,3) Cons.prems] by blast
  have "length (snd ?p) = ncols A" using Cons.prems by (simp add: gd_update_length)
  then obtain out2 where 2: "gd_loop (insert_ones A) y lr epochs \<lparr>coefficients = Some (snd ?p), intercept = Some (fst ?p)\<rparr>
      = (None, \<lparr>coefficients = Some (snd ((gd_update (rows A) y lr ^^ length epochs) (fst ?p, snd ?p))),
                intercept = Some (fst ((gd_update (rows A) y lr ^^ length epochs) (fst ?p, snd ?p)))\<rparr>, out2)"
    using Cons.IH [of "snd ?p" "fst ?p"] by blast
  show ?case by (simp add: 1 2 funpow_swap1)
qed

subsection \<open>Lemmas on the normal equation\<close>








subsection \<open>The claims\<close>


text \<open>
  C6. A method string other than "least_squares" and "gradient_descent" makes \<^verbatim>\<open>fit\<close>
  raise the ValueError of its first statement (the specification's InvalidArgument):
  nothing is computed or printed, and the regressor is returned as it was, fitted or not.
\<close>

theorem fit_unknown_method:
  assumes "method \<noteq> ''least_squares''" and "method \<noteq> ''gradient_descent''"
  shows "fit linalg_inv rnd self X y method learning_rate iterations
           = (Some (method_error method), self, [])"
  using assms by (simp add: fit_def)

theorem fit_unknown_method_witness:
  "fit (\<lambda>G. Inl LinAlgError) (\<lambda>j. 0) \<lparr>coefficients = Some [2], intercept = Some 1\<rparr>
       (Arr1 [1, 2]) [3, 5] ''bogus'' 0.01 1000
     = (Some (ValueError ''Method bogus not available for training linear regression.''),
        \<lparr>coefficients = Some [2], intercept = Some 1\<rparr>, [])"
  using fit_unknown_method [of "''bogus''" "\<lambda>G. Inl LinAlgError" "\<lambda>j. 0"
      "\<lparr>coefficients = Some [2], intercept = Some 1\<rparr>" "Arr1 [1, 2]" "[3, 5]" "0.01" 1000]
  by (simp add: method_error_def)

text \<open>
  C10. Gradient descent with \<open>iterations = 0\<close> on a 2-D array with at least one column
  runs no pass of the loop and raises nothing; the regressor is left fitted, each
  coefficient and the intercept being its random draw times 0.01, hence in [0, 0.01), and
  \<^verbatim>\<open>predict\<close> on the same array then returns one prediction per row.
\<close>

theorem fit_gradient_descent_zero_iterations:
  assumes "0 < ncols A" and "\<forall>j. 0 \<le> rnd j \<and> rnd j < 1"
  shows "fit linalg_inv rnd self (Arr2 A) y ''gradient_descent'' learning_rate 0
           = (None, \<lparr>coefficients = Some (map (\<lambda>j. rnd j * 0.01) [0..<ncols A]),
                     intercept = Some (rnd (ncols A) * 0.01)\<rparr>, [])
         \<and> list_all (\<lambda>v. 0 \<le> v \<and> v < 0.01)
              (rnd (ncols A) * 0.01 # map (\<lambda>j. rnd j * 0.01) [0..<ncols A])
         \<and> (\<exists>p. predict \<lparr>coefficients = Some (map (\<lambda>j. rnd j * 0.01) [0..<ncols A]),
                     intercept = Some (rnd (ncols A) * 0.01)\<rparr> (Arr2 A) = Inr p
                 \<and> length p = nrows A)"
  using assms
  by (simp add: fit_def fit_gradient_descent_def insert_ones_def predict_def np_dot_def
      nrows_def list_all_iff Let_def regressor_overwrite)

theorem fit_gradient_descent_zero_iterations_witness:
  "fit (\<lambda>G. Inl LinAlgError) (\<lambda>j. 1 / 2) init (Arr2 (Array2 1 [[1], [2]])) [3, 5]
       ''gradient_descent'' 0.01 0
     = (None, \<lparr>coefficients = Some [0.005], intercept = Some 0.005\<rparr>, [])
   \<and> predict \<lparr>coefficients = Some [0.005], intercept = Some 0.005\<rparr> (Arr2 (Array2 1 [[1], [2]]))
       = Inr [0.01, 0.015]"
  using fit_gradient_descent_zero_iterations [of "Array2 1 [[1], [2]]" "\<lambda>j. 1 / 2"
      "\<lambda>G. Inl LinAlgError" init "[3, 5]" "0.01"]
  by (simp add: predict_def np_dot_def dot_def)

text \<open>
  C8. \<^verbatim>\<open>one_hot_encode\<close> reads \<^verbatim>\<open>categorical_indices\<close> only through
  \<^verbatim>\<open>sorted(..., reverse=True)\<close>, so two index lists that are permutations of each other
  give the same outcome, table or exception, for every table and either flag.
\<close>

theorem one_hot_encode_permutation:
  assumes "mset is = mset js"
  shows "one_hot_encode X is drop_first = one_hot_encode X js drop_first"
proof -
  have "sort js = sort is"
    by (rule properties_for_sort) (simp_all add: assms)
  then show ?thesis by (simp add: one_hot_encode_def)
qed

theorem one_hot_encode_permutation_witness:
  "one_hot_encode (Array2 3 [[Str ''a'', Num 1, Str ''x''], [Str ''b'', Num 2, Str ''y'']]) [0, 2] False
     = one_hot_encode (Array2 3 [[Str ''a'', Num 1, Str ''x''], [Str ''b'', Num 2, Str ''y'']]) [2, 0] False"
proof -
  have h: "mset [0, 2] = mset [2, 0 :: int]" by simp
  show ?thesis by (rule one_hot_encode_permutation [OF h])
qed

text \<open>
  C9, as the code has it. The encoder checks no index itself: the column access
  \<^verbatim>\<open>X_transformed[:, index]\<close> raises numpy's IndexError, and only for an index outside
  \<open>[-ncols, ncols)\<close> of the table as it is when that index is processed. The largest
  index is processed first, on the input table. So the call raises IndexError when
  some index is at least \<open>ncols X\<close>, or when the list is not empty and all its indices
  are below \<open>- ncols X\<close>.
\<close>

theorem one_hot_encode_index_out_of_range:
  assumes "(\<exists>i\<in>set idxs. int (ncols X) \<le> i)
             \<or> (idxs \<noteq> [] \<and> (\<forall>i\<in>set idxs. i < - int (ncols X)))"
  shows "one_hot_encode X idxs drop_first = Inl IndexError"
proof -
  have ne: "idxs \<noteq> []" using assms by auto
  then obtain m rest where r: "rev (sort idxs) = m # rest" and m: "m \<in> set idxs"
    and mx: "\<forall>x\<in>set idxs. x \<le> m"
    using rev_sort_head by blast
  have "int (ncols X) \<le> m \<or> m < - int (ncols X)"
    using assms m mx by fastforce
  then have "normalize_index m (ncols X) = Inl IndexError"
    by (auto simp add: normalize_index_def)
  then show ?thesis by (simp add: one_hot_encode_def r encode_column_def)
qed

theorem one_hot_encode_index_out_of_range_witness:
  "one_hot_encode (Array2 2 [[Str ''a'', Num 1], [Str ''b'', Num 2]]) [0, 2] False = Inl IndexError"
proof -
  have h: "(\<exists>i\<in>set [0, 2]. int (ncols (Array2 2 [[Str ''a'', Num 1], [Str ''b'', Num 2]])) \<le> i)
             \<or> ([0, 2] \<noteq> [] \<and>
                 (\<forall>i\<in>set [0, 2]. i < - int (ncols (Array2 2 [[Str ''a'', Num 1], [Str ''b'', Num 2]]))))"
    by simp
  show ?thesis by (rule one_hot_encode_index_out_of_range [OF h])
qed

text \<open>
  Against C9 as stated: a negative index is not refused. On a table of two columns the
  index \<open>-1\<close> designates the last column, and the call returns a table (the indicators
  land one place to the left of the column they replace). The index \<open>-3\<close> is no index
  of a table of two columns, yet beside the index \<open>0\<close> it is accepted, because it is
  read when column 0 has already grown into three indicator columns.
\<close>

theorem one_hot_encode_negative_index_accepted:
  "one_hot_encode (Array2 2 [[Str ''a'', Num 1], [Str ''b'', Num 2]]) [-1] False
     = Inr (Array2 3 [[Num 1, Num 0, Str ''a''], [Num 0, Num 1, Str ''b'']])
   \<and> one_hot_encode (Array2 2 [[Str ''a'', Num 1], [Str ''b'', Num 2], [Str ''c'', Num 2]])
         [0, -3] False
     = Inr (Array2 5 [[Num 1, Num 0, Num 1, Num 0, Num 1],
                      [Num 0, Num 1, Num 0, Num 0, Num 2],
                      [Num 1, Num 0, Num 0, Num 1, Num 2]])"
  by (simp add: one_hot_encode_def encode_column_def normalize_index_def column_def
      np_unique_def delete_column_def slice_point_def one_hots_row_def)

text \<open>
  C3, as the code has it. Let the table have at least one row, all rows as long as the
  column count, let \<open>c\<close> be a column index from 0, and let column \<open>c\<close> hold only
  numbers or only strings. Then the indicator values \<open>levels False\<close> of the column are
  its distinct values in strictly ascending order, \<open>k\<close> of them. With
  \<open>drop_first = False\<close> the encoder puts the \<open>k\<close> indicators of each row in the place
  of cell \<open>c\<close>, and they sum to 1 in every row. With \<open>drop_first = True\<close> it puts the
  \<open>k - 1\<close> indicators of all values but the smallest there, and they sum to 0 in the
  rows that hold the smallest value and to 1 in the others.
\<close>

theorem one_hot_encode_indicator_columns:
  assumes "wf2 X" and "rows X \<noteq> []" and "c < ncols X" and "homogeneous (column X c)"
  shows "sorted_wrt cell_less (levels False (column X c))
       \<and> set (levels False (column X c)) = set (column X c)
       \<and> length (levels False (column X c)) = card (set (column X c))
       \<and> one_hot_encode X [int c] False
           = Inr (Array2 (ncols X - 1 + card (set (column X c)))
                    (map (\<lambda>r. take c r @ one_hots_row (levels False (column X c)) (r ! c) @ drop (Suc c) r)
                       (rows X)))
       \<and> (\<forall>r\<in>set (rows X). row_sum (one_hots_row (levels False (column X c)) (r ! c)) = 1)
       \<and> one_hot_encode X [int c] True
           = Inr (Array2 (ncols X - 1 + (card (set (column X c)) - 1))
                    (map (\<lambda>r. take c r @ one_hots_row (tl (levels False (column X c))) (r ! c) @ drop (Suc c) r)
                       (rows X)))
       \<and> (\<forall>r\<in>set (rows X). row_sum (one_hots_row (tl (levels False (column X c))) (r ! c))
               = (if r ! c = hd (levels False (column X c)) then 0 else 1))"
proof -
  let ?col = "column X c"
  let ?u = "levels False ?col"
  have L: "sorted_wrt cell_less ?u" "distinct ?u" "set ?u = set ?col" "levels True ?col = tl ?u"
    using levels_homogeneous [OF assms(4)] by simp_all
  have card: "length ?u = card (set ?col)"
    using L(2,3) distinct_card by metis
  have ne: "?u \<noteq> []" using L(3) assms(2) by (auto simp add: column_def)
  have mem: "\<And>r. r \<in> set (rows X) \<Longrightarrow> r ! c \<in> set ?u"
    unfolding L(3) by (simp add: column_def)
  have F: "one_hot_encode X [int c] False
      = Inr (Array2 (ncols X - 1 + card (set ?col))
               (map (\<lambda>r. take c r @ one_hots_row ?u (r ! c) @ drop (Suc c) r) (rows X)))"
    using encode_column_valid [OF assms, of False]
    by (simp add: one_hot_encode_single card row_step_def)
  have T: "one_hot_encode X [int c] True
      = Inr (Array2 (ncols X - 1 + (card (set ?col) - 1))
               (map (\<lambda>r. take c r @ one_hots_row (tl ?u) (r ! c) @ drop (Suc c) r) (rows X)))"
    using encode_column_valid [OF assms, of True]
    by (simp add: one_hot_encode_single L(4) card [symmetric] row_step_def)
  have S1: "\<forall>r\<in>set (rows X). row_sum (one_hots_row ?u (r ! c)) = 1"
    using row_sum_present [OF L(2)] mem by blast
  have S0: "\<forall>r\<in>set (rows X). row_sum (one_hots_row (tl ?u) (r ! c))
               = (if r ! c = hd ?u then 0 else 1)"
  proof
    fix r assume r: "r \<in> set (rows X)"
    have u: "?u = hd ?u # tl ?u" using ne by simp
    have d: "hd ?u \<notin> set (tl ?u)" "distinct (tl ?u)"
      using L(2) u by (metis distinct.simps(2))+
    have "r ! c = hd ?u \<or> r ! c \<in> set (tl ?u)"
      using mem [OF r] u by (metis set_ConsD)
    then show "row_sum (one_hots_row (tl ?u) (r ! c)) = (if r ! c = hd ?u then 0 else 1)"
      using d row_sum_absent [of "r ! c" "tl ?u"] row_sum_present [of "tl ?u" "r ! c"] by auto
  qed
  show ?thesis using L(1,3) card F S1 T S0 by blast
qed

theorem one_hot_encode_indicator_columns_witness:
  "one_hot_encode (Array2 3 [[Num 1, Str ''b'', Num 5], [Num 2, Str ''a'', Num 6], [Num 3, Str ''b'', Num 7]])
       [1] False
     = Inr (Array2 4 [[Num 1, Num 0, Num 1, Num 5], [Num 2, Num 1, Num 0, Num 6], [Num 3, Num 0, Num 1, Num 7]])
   \<and> one_hot_encode (Array2 3 [[Num 1, Str ''b'', Num 5], [Num 2, Str ''a'', Num 6], [Num 3, Str ''b'', Num 7]])
       [1] True
     = Inr (Array2 3 [[Num 1, Num 1, Num 5], [Num 2, Num 0, Num 6], [Num 3, Num 1, Num 7]])"
proof -
  let ?X = "Array2 3 [[Num 1, Str ''b'', Num 5], [Num 2, Str ''a'', Num 6], [Num 3, Str ''b'', Num 7]]"
  have h1: "wf2 ?X" by (simp add: wf2_def)
  have h2: "rows ?X \<noteq> []" by simp
  have h3: "1 < ncols ?X" by simp
  have h4: "homogeneous (column ?X 1)" by (simp add: homogeneous_def column_def)
  have lv: "levels False (column ?X 1) = [Str ''a'', Str ''b'']"
    by (simp add: levels_def np_unique_def column_def)
  show ?thesis
    using one_hot_encode_indicator_columns [OF h1 h2 h3 h4]
    unfolding lv by (simp add: one_hots_row_def)
qed

text \<open>
  Against C3 as stated: a column that holds a number and a string has two distinct
  values, but \<^verbatim>\<open>np.unique\<close> cannot sort them and raises TypeError; and on a table with
  no row \<^verbatim>\<open>np.hstack\<close> raises ValueError, where the claim promises a table with the
  column removed and no indicator column.
\<close>

theorem one_hot_encode_indicator_columns_counterexample:
  "one_hot_encode (Array2 2 [[Num 1, Str ''x''], [Str ''a'', Str ''y'']]) [0] False = Inl TypeError
   \<and> one_hot_encode (Array2 2 []) [0] False
       = Inl (ValueError ''all the input arrays must have same number of dimensions'')"
  by (simp add: one_hot_encode_def encode_column_def normalize_index_def column_def
      np_unique_def delete_column_def slice_point_def one_hots_row_def)

text \<open>
  C4, as the code has it. The model is a function: the input table is a value and cannot
  change. Let the table have at least one row, all rows as long as the column count, let
  the indices be distinct column indices from 0, and let each designated column hold only
  numbers or only strings. Then each row of the result is the row of the input read
  from left to right, in which the cell of a designated column gives way to the
  indicators of that cell against the indicator values of its column in the input table,
  and every other cell stays as it is.
\<close>

theorem one_hot_encode_layout:
  assumes "wf2 X" and "rows X \<noteq> []" and "distinct idxs"
    and "\<forall>i\<in>set idxs. 0 \<le> i \<and> i < int (ncols X)"
    and "\<forall>i\<in>set idxs. homogeneous (column X (nat i))"
  shows "one_hot_encode X idxs d
           = Inr (Array2
                (sum_list (map (\<lambda>j. if j \<in> set (map nat idxs) then length (levels d (column X j)) else 1)
                   [0..<ncols X]))
                (map (spliced_row (\<lambda>j. levels d (column X j)) (map nat idxs)) (rows X)))"
proof -
  let ?L = "\<lambda>j. levels d (column X j)"
  let ?js = "map nat (rev (sort idxs))"
  have nn: "\<forall>i\<in>set idxs. 0 \<le> i" using assms(4) by simp
  note D = descending_indices [OF assms(3) nn]
  have len: "\<And>r. r \<in> set (rows X) \<Longrightarrow> length r = ncols X"
    using assms(1) by (simp add: wf2_def list_all_iff)
  have lt: "\<forall>j\<in>set ?js. j < ncols X" using assms(4) by auto
  have hom: "\<forall>j\<in>set ?js. homogeneous (column X j) \<and> levels d (column X j) = ?L j"
    using assms(5) by auto
  obtain c where run: "encode_loop d (map int ?js) X = Inr (Array2 c (map (fold (row_step ?L) ?js) (rows X)))"
    and wf: "wf2 (Array2 c (map (fold (row_step ?L) ?js) (rows X)))"
    using encode_loop_valid [OF D(2) lt assms(1,2) hom] by blast
  have row: "\<And>r. r \<in> set (rows X) \<Longrightarrow> fold (row_step ?L) ?js r = spliced_row ?L (map nat idxs) r"
  proof -
    fix r assume r: "r \<in> set (rows X)"
    have "\<forall>j\<in>set ?js. j < length r" using lt len [OF r] by simp
    then have "fold (row_step ?L) ?js r
        = concat (map (\<lambda>j. if j \<in> set ?js then one_hots_row (?L j) (r ! j) else [r ! j]) [0..<length r])
          @ drop (length r) r"
      using fold_row_step [OF D(2), of "length r" r ?L] by simp
    then show "fold (row_step ?L) ?js r = spliced_row ?L (map nat idxs) r"
      unfolding D(3) by (simp add: spliced_row_def)
  qed
  have rows_eq: "map (fold (row_step ?L) ?js) (rows X) = map (spliced_row ?L (map nat idxs)) (rows X)"
    using row by (intro map_cong) auto
  have width: "\<And>r. r \<in> set (rows X) \<Longrightarrow> length (spliced_row ?L (map nat idxs) r)
      = sum_list (map (\<lambda>j. if j \<in> set (map nat idxs) then length (?L j) else 1) [0..<ncols X])"
  proof -
    fix r assume r: "r \<in> set (rows X)"
    have "length (spliced_row ?L (map nat idxs) r)
        = sum_list (map (\<lambda>j. length (if j \<in> set (map nat idxs) then one_hots_row (?L j) (r ! j) else [r ! j]))
            [0..<length r])"
      by (simp add: spliced_row_def length_concat comp_def)
    also have "map (\<lambda>j. length (if j \<in> set (map nat idxs) then one_hots_row (?L j) (r ! j) else [r ! j]))
            [0..<length r]
        = map (\<lambda>j. if j \<in> set (map nat idxs) then length (?L j) else 1) [0..<length r]"
      by (intro map_cong) (auto simp add: one_hots_row_def)
    finally show "length (spliced_row ?L (map nat idxs) r)
      = sum_list (map (\<lambda>j. if j \<in> set (map nat idxs) then length (?L j) else 1) [0..<ncols X])"
      using len [OF r] by simp
  qed
  obtain r0 where r0: "r0 \<in> set (rows X)" using assms(2) by (cases "rows X") auto
  have "length (spliced_row ?L (map nat idxs) r0) = c"
    using wf r0 unfolding rows_eq by (simp add: wf2_def list_all_iff)
  then have c: "c = sum_list (map (\<lambda>j. if j \<in> set (map nat idxs) then length (?L j) else 1) [0..<ncols X])"
    using width [OF r0] by simp
  show ?thesis
    unfolding one_hot_encode_def using run unfolding D(1) rows_eq c by simp
qed

theorem one_hot_encode_layout_witness:
  "one_hot_encode
       (Array2 3 [[Str ''a'', Num 10, Str ''x''], [Str ''b'', Num 20, Str ''y''], [Str ''a'', Num 30, Str ''x'']])
       [0, 2] False
     = Inr (Array2 5 [[Num 1, Num 0, Num 10, Num 1, Num 0],
                      [Num 0, Num 1, Num 20, Num 0, Num 1],
                      [Num 1, Num 0, Num 30, Num 1, Num 0]])"
proof -
  let ?X = "Array2 3 [[Str ''a'', Num 10, Str ''x''], [Str ''b'', Num 20, Str ''y''], [Str ''a'', Num 30, Str ''x'']]"
  have h1: "wf2 ?X" by (simp add: wf2_def)
  have h2: "rows ?X \<noteq> []" by simp
  have h3: "distinct [0, 2 :: int]" by simp
  have h4: "\<forall>i\<in>set [0, 2]. 0 \<le> i \<and> i < int (ncols ?X)" by simp
  have h5: "\<forall>i\<in>set [0, 2]. homogeneous (column ?X (nat i))"
    by (simp add: homogeneous_def column_def)
  have u: "[0..<3] = [0, 1, 2]" by (simp add: upt_conv_Cons)
  have l0: "levels False (column ?X 0) = [Str ''a'', Str ''b'']"
    by (simp add: levels_def np_unique_def column_def)
  have l2: "levels False (column ?X 2) = [Str ''x'', Str ''y'']"
    by (simp add: levels_def np_unique_def column_def)
  have l2': "levels False (column ?X (Suc (Suc 0))) = [Str ''x'', Str ''y'']"
    by (simp add: levels_def np_unique_def column_def)
  show ?thesis
    using one_hot_encode_layout [OF h1 h2 h3 h4 h5, of False]
    by (simp add: u l0 l2 l2' spliced_row_def one_hots_row_def)
qed

text \<open>
  Against C4 as stated: with valid indices the call raises TypeError when a designated
  column holds a number and a string, and ValueError when the table has no row.
\<close>

theorem one_hot_encode_layout_counterexample:
  "one_hot_encode (Array2 3 [[Str ''a'', Num 1, Num 7], [Str ''b'', Str ''c'', Num 8]]) [0, 1] True
     = Inl TypeError
   \<and> one_hot_encode (Array2 3 []) [2, 0] False
       = Inl (ValueError ''all the input arrays must have same number of dimensions'')"
  by (simp add: one_hot_encode_def encode_column_def normalize_index_def column_def
      np_unique_def delete_column_def slice_point_def one_hots_row_def)



text \<open>
  C2, as the code has it. Let \<open>X\<close> be a 2-D array with as many rows as there are
  targets, and at least one. Then \<^verbatim>\<open>fit\<close> with the method "gradient_descent" raises
  nothing and leaves the regressor with the intercept and the coefficients obtained from
  the random start (each draw times 0.01, hence in [0, 0.01)) by exactly
  \<open>iterations\<close> steps of the update of the specification, none for a negative
  count: there is no test of convergence. The error of a step is taken on the raw
  feature columns. (Numbers are reals; that the draws are independent is a matter of
  the generator and is not stated.)
\<close>

theorem fit_gradient_descent_steps:
  assumes "wf2 A" and "nrows A = length y" and "0 < length y"
    and "\<forall>j. 0 \<le> rnd j \<and> rnd j < 1"
  shows "(\<exists>out. fit linalg_inv rnd self (Arr2 A) y ''gradient_descent'' learning_rate iterations
            = (None,
               \<lparr>coefficients = Some (snd ((gd_update (rows A) y learning_rate ^^ nat iterations)
                                 (rnd (ncols A) * 0.01, map (\<lambda>j. rnd j * 0.01) [0..<ncols A]))),
                  intercept = Some (fst ((gd_update (rows A) y learning_rate ^^ nat iterations)
                                 (rnd (ncols A) * 0.01, map (\<lambda>j. rnd j * 0.01) [0..<ncols A])))\<rparr>,
               out))
       \<and> list_all (\<lambda>v. 0 \<le> v \<and> v < 0.01)
            (rnd (ncols A) * 0.01 # map (\<lambda>j. rnd j * 0.01) [0..<ncols A])"
proof -
  have l: "length (map (\<lambda>j. rnd j * 0.01) [0..<ncols A]) = ncols A" by simp
  have nc: "ncols (insert_ones A) = Suc (ncols A)" by (simp add: insert_ones_def)
  obtain out where "gd_loop (insert_ones A) y learning_rate [0..<nat iterations]
        \<lparr>coefficients = Some (map (\<lambda>j. rnd j * 0.01) [0..<ncols A]),
           intercept = Some (rnd (ncols A) * 0.01)\<rparr>
      = (None,
         \<lparr>coefficients = Some (snd ((gd_update (rows A) y learning_rate ^^ length [0..<nat iterations])
                                 (rnd (ncols A) * 0.01, map (\<lambda>j. rnd j * 0.01) [0..<ncols A]))),
            intercept = Some (fst ((gd_update (rows A) y learning_rate ^^ length [0..<nat iterations])
                                 (rnd (ncols A) * 0.01, map (\<lambda>j. rnd j * 0.01) [0..<ncols A])))\<rparr>,
         out)"
    using gd_loop_steps [OF assms(1,2,3) l] by blast
  then have A: "\<exists>out. fit linalg_inv rnd self (Arr2 A) y ''gradient_descent'' learning_rate iterations
            = (None,
               \<lparr>coefficients = Some (snd ((gd_update (rows A) y learning_rate ^^ nat iterations)
                                 (rnd (ncols A) * 0.01, map (\<lambda>j. rnd j * 0.01) [0..<ncols A]))),
                  intercept = Some (fst ((gd_update (rows A) y learning_rate ^^ nat iterations)
                                 (rnd (ncols A) * 0.01, map (\<lambda>j. rnd j * 0.01) [0..<ncols A])))\<rparr>,
               out)"
    by (simp add: fit_def fit_gradient_descent_def Let_def regressor_overwrite nc)
  have B: "list_all (\<lambda>v. 0 \<le> v \<and> v < 0.01)
            (rnd (ncols A) * 0.01 # map (\<lambda>j. rnd j * 0.01) [0..<ncols A])"
    using assms(4) by (simp add: list_all_iff)
  show ?thesis by (rule conjI [OF A B])
qed

theorem fit_gradient_descent_steps_witness:
  "\<exists>out. fit (\<lambda>G. Inl LinAlgError) (\<lambda>j. 0) init (Arr2 (Array2 1 [[1], [2]])) [3, 5]
            ''gradient_descent'' 0.1 1
          = (None, \<lparr>coefficients = Some [13 / 10], intercept = Some (4 / 5)\<rparr>, out)"
proof -
  have h1: "wf2 (Array2 1 [[1], [2 :: real]])" by (simp add: wf2_def)
  have h2: "nrows (Array2 1 [[1], [2 :: real]]) = length [3, 5 :: real]" by (simp add: nrows_def)
  have h3: "0 < length [3, 5 :: real]" by simp
  have h4: "\<forall>j. 0 \<le> (\<lambda>j :: nat. 0 :: real) j \<and> (\<lambda>j :: nat. 0 :: real) j < 1" by simp
  have u: "gd_update [[1], [2]] [3, 5] 0.1 (0, [0]) = (4 / 5, [13 / 10])"
    by (simp add: gd_update_def gd_error_def)
  show ?thesis
    using fit_gradient_descent_steps [OF h1 h2 h3 h4, of "\<lambda>G. Inl LinAlgError" init "0.1" 1]
    by (simp add: u)
qed

text \<open>
  Against C2 as stated: with no row and no target, \<open>n = 0\<close>, the first pass of the loop
  divides the Python integers \<^verbatim>\<open>2 / n\<close> and raises ZeroDivisionError, so one requested
  step is not performed; the regressor keeps its random start.
\<close>

theorem fit_gradient_descent_no_rows:
  "fit singular_inv (constant_draws (1 / 2)) init (Arr2 (Array2 1 [])) []
       ''gradient_descent'' 0.01 1
     = (Some ZeroDivisionError, \<lparr>coefficients = Some [0.005], intercept = Some 0.005\<rparr>, [])"
  by (simp add: fit_def fit_gradient_descent_def insert_ones_def gd_epoch_def drop_first_column_def
      predict_def np_dot_def np_broadcast_def init_def Let_def constant_draws_def)



end
